theory Spec2Isabelle
  imports Complex_Main "HOL-Library.Monad_Syntax"
begin

section \<open>Numbers and vectors\<close>

text \<open>
  The program computes with IEEE floating-point numbers (JavaScript \<open>number\<close>, GLSL
  \<open>float\<close>). This development reads every arithmetic expression of the source over the
  real numbers: rounding is not modelled. Where a JavaScript function leaves the finite
  numbers (\<open>Math.log\<close> at or below zero, \<open>Math.sqrt\<close> below zero) the model returns
  \<open>None\<close>.
\<close>

datatype vec3 = Vec3 (vx: real) (vy: real) (vz: real)

datatype vec4 = Vec4 (wx: real) (wy: real) (wz: real) (ww: real)

definition vadd :: "vec3 \<Rightarrow> vec3 \<Rightarrow> vec3" where
  "vadd a b = Vec3 (vx a + vx b) (vy a + vy b) (vz a + vz b)"

definition vsub :: "vec3 \<Rightarrow> vec3 \<Rightarrow> vec3" where
  "vsub a b = Vec3 (vx a - vx b) (vy a - vy b) (vz a - vz b)"

definition vscale :: "vec3 \<Rightarrow> real \<Rightarrow> vec3" where
  "vscale a k = Vec3 (vx a * k) (vy a * k) (vz a * k)"

definition dot3 :: "vec3 \<Rightarrow> vec3 \<Rightarrow> real" where
  "dot3 a b = vx a * vx b + vy a * vy b + vz a * vz b"

definition length3 :: "vec3 \<Rightarrow> real" where
  "length3 a = sqrt (dot3 a a)"

definition normalize3 :: "vec3 \<Rightarrow> vec3" where
  "normalize3 a = Vec3 (vx a / length3 a) (vy a / length3 a) (vz a / length3 a)"

section \<open>GLSL built-ins used by the fragment shader\<close>

definition clamp :: "real \<Rightarrow> real \<Rightarrow> real \<Rightarrow> real" where
  "clamp v lo hi = min (max v lo) hi"

definition smoothstep :: "real \<Rightarrow> real \<Rightarrow> real \<Rightarrow> real" where
  "smoothstep edge0 edge1 v =
     (let t = clamp ((v - edge0) / (edge1 - edge0)) 0 1 in t * t * (3 - 2 * t))"

definition mix :: "real \<Rightarrow> real \<Rightarrow> real \<Rightarrow> real" where
  "mix a b w = a * (1 - w) + b * w"

definition mix3 :: "vec3 \<Rightarrow> vec3 \<Rightarrow> real \<Rightarrow> vec3" where
  "mix3 a b w = Vec3 (mix (vx a) (vx b) w) (mix (vy a) (vy b) w) (mix (vz a) (vz b) w)"

definition glsl_mod :: "real \<Rightarrow> real \<Rightarrow> real" where
  "glsl_mod a b = a - b * of_int \<lfloor>a / b\<rfloor>"

definition glsl_pow :: "real \<Rightarrow> real \<Rightarrow> real" where
  "glsl_pow a b = a powr b"

section \<open>The palette: \<open>customPalette\<close>\<close>

definition c0 :: vec3 where "c0 = Vec3 0.35 0.0 0.0"
definition c1 :: vec3 where "c1 = Vec3 0.5 0.0 0.1"
definition c2 :: vec3 where "c2 = Vec3 0.7 0.1 0.2"
definition c3 :: vec3 where "c3 = Vec3 0.9 0.2 0.1"
definition c4 :: vec3 where "c4 = Vec3 1.0 0.4 0.1"
definition c5 :: vec3 where "c5 = Vec3 1.0 0.6 0.2"

definition customPalette :: "real \<Rightarrow> vec3" where
  "customPalette t =
     (let t0 = smoothstep 0.0 0.2 t;
          t1 = smoothstep 0.2 0.4 t;
          t2 = smoothstep 0.4 0.6 t;
          t3 = smoothstep 0.6 0.8 t;
          t4 = smoothstep 0.8 1.0 t;
          color = mix3 c0 c1 t0;
          color = mix3 color c2 t1;
          color = mix3 color c3 t2;
          color = mix3 color c4 t3;
          color = mix3 color c5 t4
      in color)"

text \<open>
  The anchor colours are the constants \<open>c0\<close> .. \<open>c5\<close> that \<open>customPalette\<close> declares:
  six colours, joined by five smoothstep bands.
\<close>

definition anchors :: "vec3 list" where
  "anchors = [c0, c1, c2, c3, c4, c5]"

definition chan_min :: "(vec3 \<Rightarrow> real) \<Rightarrow> real" where
  "chan_min ch = Min (ch ` set anchors)"

definition chan_max :: "(vec3 \<Rightarrow> real) \<Rightarrow> real" where
  "chan_max ch = Max (ch ` set anchors)"

section \<open>Hover handling of a Cube\<close>

text \<open>
  \<open>hovered\<close> is the Cube's React state, \<open>cursor\<close> is \<open>document.body.style.cursor\<close>, and
  \<open>propagationStopped\<close> records the call of \<open>event.stopPropagation()\<close>.
\<close>

record hover_state =
  hovered :: bool
  cursor :: string

record pointer_event =
  propagationStopped :: bool

definition handlePointerOver :: "pointer_event \<Rightarrow> hover_state \<Rightarrow> pointer_event \<times> hover_state" where
  "handlePointerOver event st =
     (event\<lparr>propagationStopped := True\<rparr>, st\<lparr>hovered := True, cursor := ''pointer''\<rparr>)"

definition handlePointerOut :: "hover_state \<Rightarrow> hover_state" where
  "handlePointerOut st = st\<lparr>hovered := False, cursor := ''auto''\<rparr>"

datatype pointer_input = PointerOver pointer_event | PointerOut

fun dispatch :: "hover_state \<Rightarrow> pointer_input \<Rightarrow> hover_state" where
  "dispatch st (PointerOver event) = snd (handlePointerOver event st)"
| "dispatch st PointerOut = handlePointerOut st"

definition deliver :: "pointer_input list \<Rightarrow> hover_state \<Rightarrow> hover_state" where
  "deliver evs st = foldl dispatch st evs"

text \<open>A sequence of inputs is a run of enters when it is not empty and holds no exit.\<close>

fun is_over :: "pointer_input \<Rightarrow> bool" where
  "is_over (PointerOver event) = True"
| "is_over PointerOut = False"

section \<open>The per-frame update of a Tower\<close>

text \<open>
  \<open>group\<close> is the \<open>THREE.Group\<close> behind \<open>groupRef\<close>, of which the callback writes
  \<open>scale.y\<close> only. \<open>Date.now()\<close> and \<open>startTime.current\<close> are whole milliseconds.
  With no group mounted the callback returns at once.
\<close>

record group =
  scale_y :: real

definition Tower_useFrame :: "int \<Rightarrow> int \<Rightarrow> real \<Rightarrow> bool \<Rightarrow> group option \<Rightarrow> group option" where
  "Tower_useFrame now startTime delay visible groupRef =
     (case groupRef of
        None \<Rightarrow> None
      | Some grp \<Rightarrow>
          (let elapsedTime = real_of_int (now - startTime) / 1000 - delay in
           if elapsedTime < 0 \<or> \<not> visible then Some (grp\<lparr>scale_y := 0\<rparr>)
           else if elapsedTime > 1.5 then Some (grp\<lparr>scale_y := 1\<rparr>)
           else
             (let progress = min (elapsedTime / 1.5) 1;
                  easeOutQuart = 1 - (1 - progress) ^ 4
              in Some (grp\<lparr>scale_y := easeOutQuart\<rparr>))))"

text \<open>Seconds since the Tower was mounted, as the specification counts them.\<close>

definition elapsedSinceMount :: "int \<Rightarrow> int \<Rightarrow> real" where
  "elapsedSinceMount now startTime = real_of_int (now - startTime) / 1000"

section \<open>Random numbers: \<open>Math.random\<close> and \<open>gaussianRandom\<close>\<close>

text \<open>
  \<open>Math.random()\<close> is a source of numbers: \<open>rng\<close> is the sequence of values it
  returns, a \<open>nat\<close> the number of values drawn so far. Its contract is that every value
  lies in \<open>[0, 1)\<close>.
\<close>

type_synonym rng = "nat \<Rightarrow> real"

definition Math_random :: "rng \<Rightarrow> nat \<Rightarrow> real \<times> nat" where
  "Math_random rnd k = (rnd k, Suc k)"

definition uniform_source :: "rng \<Rightarrow> bool" where
  "uniform_source rnd = (\<forall>i. 0 \<le> rnd i \<and> rnd i < 1)"

text \<open>
  \<open>Math.log\<close> gives \<open>-Infinity\<close> at 0 and \<open>NaN\<close> below; \<open>Math.sqrt\<close> gives \<open>NaN\<close>
  below 0. \<open>None\<close> stands for a result that is not a finite number.
\<close>

definition Math_log :: "real \<Rightarrow> real option" where
  "Math_log a = (if 0 < a then Some (ln a) else None)"

definition Math_sqrt :: "real \<Rightarrow> real option" where
  "Math_sqrt a = (if 0 \<le> a then Some (sqrt a) else None)"

definition gaussianRandom :: "real \<Rightarrow> real \<Rightarrow> rng \<Rightarrow> nat \<Rightarrow> (real \<times> nat) option" where
  "gaussianRandom mean stdev rnd k =
     (let (r, k1) = Math_random rnd k;
          u = 1 - r;
          (v, k2) = Math_random rnd k1
      in do {
        l \<leftarrow> Math_log u;
        q \<leftarrow> Math_sqrt (- 2.0 * l);
        let z = q * cos (2.0 * pi * v);
        Some (z * stdev + mean, k2)
      })"

section \<open>The cubes of a Tower\<close>

record cube =
  cube_key :: int
  cube_position :: vec3
  cube_color :: nat
  cube_index :: int
  cube_randomValue :: real

definition numCubes :: "real \<Rightarrow> int" where
  "numCubes height = \<lfloor>height * 8\<rfloor>"

function cube_loop :: "vec3 \<Rightarrow> int \<Rightarrow> rng \<Rightarrow> int \<Rightarrow> nat \<Rightarrow> cube list \<Rightarrow> (cube list \<times> nat) option" where
  "cube_loop position n rnd i k cubeElements =
     (if i < n then
        do {
          (cubeRandomValue, k') \<leftarrow> gaussianRandom 0.5 0.2 rnd k;
          cube_loop position n rnd (i + 1) k'
            (cubeElements @
              [\<lparr>cube_key = i,
                cube_position = Vec3 (vx position) (vy position + (of_int i * 0.5)) (vz position),
                cube_color = 0x006FEE,
                cube_index = i,
                cube_randomValue = cubeRandomValue\<rparr>])
        }
      else Some (cubeElements, k))"
  by pat_completeness auto
termination
  by (relation "measure (\<lambda>(position, n, rnd, i, k, cubeElements). nat (n - i))") auto

definition Tower_cubes :: "vec3 \<Rightarrow> real \<Rightarrow> rng \<Rightarrow> nat \<Rightarrow> (cube list \<times> nat) option" where
  "Tower_cubes position height rnd k = cube_loop position (numCubes height) rnd 0 k []"

section \<open>The grid of Towers\<close>

record tower =
  tower_key :: "int \<times> int"
  tower_position :: vec3
  tower_delay :: real
  tower_height :: real
  tower_randomValue :: real

definition size_grid :: int where "size_grid = 12"
definition spacing :: real where "spacing = 0.8"

function Towers_z :: "rng \<Rightarrow> int \<Rightarrow> int \<Rightarrow> nat \<Rightarrow> tower list \<Rightarrow> (tower list \<times> nat) option" where
  "Towers_z rnd x z k towers =
     (if z < size_grid then
        (let posX = (of_int x - of_int size_grid / 2 + 0.5) * spacing;
             posZ = (of_int z - of_int size_grid / 2 + 0.5) * spacing;
             delay = of_int (x + z) * 0.08;
             centerX = of_int size_grid / 2 - 0.5;
             centerZ = of_int size_grid / 2 - 0.5
         in do {
           distanceFromCenter \<leftarrow> Math_sqrt ((of_int x - centerX) ^ 2 + (of_int z - centerZ) ^ 2);
           root2 \<leftarrow> Math_sqrt 2;
           let maxDistance = root2 * of_int size_grid / 2;
           let baseHeight = 2.5;
           let heightVariation = 1.5;
           let normalizedDistance = distanceFromCenter / maxDistance;
           (noise, k1) \<leftarrow> gaussianRandom 0 0.3 rnd k;
           let height = baseHeight - (heightVariation * normalizedDistance) + noise;
           (randomValue, k2) \<leftarrow> gaussianRandom 0.5 0.2 rnd k1;
           Towers_z rnd x (z + 1) k2
             (towers @
               [\<lparr>tower_key = (x, z),
                 tower_position = Vec3 posX (- 2) posZ,
                 tower_delay = delay,
                 tower_height = max 0.5 height,
                 tower_randomValue = randomValue\<rparr>])
         })
      else Some (towers, k))"
  by pat_completeness auto
termination
  by (relation "measure (\<lambda>(rnd, x, z, k, towers). nat (size_grid - z))") auto

function Towers_x :: "rng \<Rightarrow> int \<Rightarrow> nat \<Rightarrow> tower list \<Rightarrow> (tower list \<times> nat) option" where
  "Towers_x rnd x k towers =
     (if x < size_grid then
        do {
          (towers', k') \<leftarrow> Towers_z rnd x 0 k towers;
          Towers_x rnd (x + 1) k' towers'
        }
      else Some (towers, k))"
  by pat_completeness auto
termination
  by (relation "measure (\<lambda>(rnd, x, k, towers). nat (size_grid - x))") auto

definition Towers :: "rng \<Rightarrow> nat \<Rightarrow> (tower list \<times> nat) option" where
  "Towers rnd k = Towers_x rnd 0 k []"

section \<open>The fragment shader\<close>

text \<open>
  Everything the fragment shader can read: its uniforms, its varyings and the built-in
  \<open>cameraPosition\<close>. It writes \<open>gl_FragColor\<close>, the result of \<open>fragment_main\<close>.
\<close>

record fragment_input =
  color :: vec3
  time :: real
  index :: real
  randomValue :: real
  isHovered :: real
  vUv :: "real \<times> real"
  vPosition :: vec3
  vNormal :: vec3
  vWorldPosition :: vec3
  cameraPosition :: vec3

definition fogFactor :: "real \<Rightarrow> real \<Rightarrow> real" where
  "fogFactor dist' density = (let fogAmount = 1.0 - exp (- dist' * density) in clamp fogAmount 0.0 1.0)"

definition fragment_main :: "fragment_input \<Rightarrow> vec4" where
  "fragment_main inp =
     (let viewDirection = normalize3 (vsub (cameraPosition inp) (vWorldPosition inp));
          fresnel = glsl_pow (1.0 - dot3 viewDirection (vNormal inp)) 2.0;
          t = glsl_mod (randomValue inp + time inp * 0.1) 1.0;
          baseColor = customPalette t;
          rim = glsl_pow (1.0 - dot3 viewDirection (vNormal inp)) 3.0 * 0.5;
          finalColor = baseColor;
          finalColor = vadd finalColor (vscale (Vec3 0.3 0.1 0.1) rim);
          finalColor = vscale finalColor (0.8 + 0.2 * sin (time inp * 2.0 + index inp * 0.5));
          finalColor =
            (if isHovered inp > 0.0 then
               (let fogDensity = 2.0 + sin (time inp * 3.0) * 0.5;
                    dist = length3 (vPosition inp);
                    fog = fogFactor dist fogDensity;
                    fogColor = Vec3 1.0 0.3 0.1;
                    glowColor = mix3 finalColor fogColor
                      (fog * isHovered inp * (0.8 + 0.2 * sin (time inp * 4.0)));
                    emission = 0.4 + 0.2 * sin (time inp * 5.0);
                    finalColor = mix3 finalColor glowColor (isHovered inp);
                    finalColor = vadd finalColor (vscale (vscale fogColor emission) (isHovered inp));
                    edgeGlow = glsl_pow (1.0 - dot3 viewDirection (vNormal inp)) 4.0;
                    finalColor = vadd finalColor (vscale (vscale fogColor edgeGlow) (isHovered inp))
                in finalColor)
             else finalColor)
      in Vec4 (vx finalColor) (vy finalColor) (vz finalColor) 1.0)"

text \<open>
  The view vector of a fragment, named as the specification names it: the value the
  shader binds to \<open>viewDirection\<close>.
\<close>

definition view_vector :: "fragment_input \<Rightarrow> vec3" where
  "view_vector inp = normalize3 (vsub (cameraPosition inp) (vWorldPosition inp))"

text \<open>
  A fragment of a hovered cube: the \<open>color\<close> uniform is \<open>0x006FEE\<close>, the local position
  lies on the face \<open>x = 0.25\<close> of the box of side 0.5, and the camera stands at
  \<open>[12, 12, 12]\<close>. \<open>fragment_other_uv\<close> is the same input with another \<open>vUv\<close>, a
  varying the shader declares and never reads.
\<close>

definition fragment_sample :: fragment_input where
  "fragment_sample =
     \<lparr>color = Vec3 0 (111 / 255) (238 / 255), time = 10 * pi, index = 0,
      randomValue = 0.5, isHovered = 1, vUv = (0.5, 0.5), vPosition = Vec3 0.25 0 0,
      vNormal = Vec3 1 0 0, vWorldPosition = Vec3 0.65 (- 2) 0.4,
      cameraPosition = Vec3 12 12 12\<rparr>"

definition fragment_other_uv :: fragment_input where
  "fragment_other_uv = fragment_sample\<lparr>vUv := (0.25, 0.75)\<rparr>"

section \<open>Fullscreen control of the host\<close>

text \<open>
  \<open>fullscreenElement\<close> is \<open>document.fullscreenElement\<close> (\<open>None\<close> for \<open>null\<close>) and
  \<open>isFullscreen\<close> the React state of \<open>App\<close>. The browser's Fullscreen API is outside
  the program: \<open>requestFullscreen\<close> and \<open>exitFullscreen\<close> take the browser's answer as
  the parameter \<open>granted\<close>, and a granted call is taken to be complete when it returns.
  The program ignores the promise both calls return.
\<close>

record host =
  fullscreenElement :: "string option"
  isFullscreen :: bool

definition requestFullscreen :: "bool \<Rightarrow> host \<Rightarrow> host" where
  "requestFullscreen granted st =
     (if granted then st\<lparr>fullscreenElement := Some ''documentElement''\<rparr> else st)"

definition exitFullscreen :: "bool \<Rightarrow> host \<Rightarrow> host" where
  "exitFullscreen granted st = (if granted then st\<lparr>fullscreenElement := None\<rparr> else st)"

definition toggleFullscreen :: "bool \<Rightarrow> host \<Rightarrow> host" where
  "toggleFullscreen granted st =
     (if fullscreenElement st = None then (requestFullscreen granted st)\<lparr>isFullscreen := True\<rparr>
      else (exitFullscreen granted st)\<lparr>isFullscreen := False\<rparr>)"

definition handleKeyPress :: "string \<Rightarrow> bool \<Rightarrow> host \<Rightarrow> host" where
  "handleKeyPress key granted st =
     (if key = ''f'' \<or> key = ''F'' then toggleFullscreen granted st else st)"

text \<open>Whether the page is in fullscreen, as the platform sees it.\<close>

definition in_fullscreen :: "host \<Rightarrow> bool" where
  "in_fullscreen st = (fullscreenElement st \<noteq> None)"

section \<open>Properties of the palette\<close>

lemma smoothstep_range: "0 \<le> smoothstep e0 e1 v \<and> smoothstep e0 e1 v \<le> 1"
proof -
  define t where "t = clamp ((v - e0) / (e1 - e0)) 0 1"
  have t: "0 \<le> t" "t \<le> 1" by (simp_all add: t_def clamp_def)
  have s: "smoothstep e0 e1 v = t * t * (3 - 2 * t)"
    by (simp add: smoothstep_def t_def Let_def)
  have lo: "0 \<le> t * t * (3 - 2 * t)" using t by simp
  have "1 - t * t * (3 - 2 * t) = (1 - t) * (1 - t) * (1 + 2 * t)" by algebra
  moreover have "0 \<le> (1 - t) * (1 - t) * (1 + 2 * t)" using t by simp
  ultimately have "t * t * (3 - 2 * t) \<le> 1" by linarith
  with lo s show ?thesis by simp
qed

lemma mix_between:
  assumes "0 \<le> w \<and> w \<le> 1" "lo \<le> a \<and> a \<le> hi" "lo \<le> b \<and> b \<le> hi"
  shows "lo \<le> mix a b w \<and> mix a b w \<le> hi"
proof -
  have "lo * (1 - w) \<le> a * (1 - w)" "lo * w \<le> b * w"
       "a * (1 - w) \<le> hi * (1 - w)" "b * w \<le> hi * w"
    using assms by (simp_all add: mult_right_mono)
  moreover have "lo = lo * (1 - w) + lo * w" "hi = hi * (1 - w) + hi * w" by algebra+
  ultimately show ?thesis unfolding mix_def by linarith
qed

lemma mix3_sel [simp]:
  "vx (mix3 a b w) = mix (vx a) (vx b) w"
  "vy (mix3 a b w) = mix (vy a) (vy b) w"
  "vz (mix3 a b w) = mix (vz a) (vz b) w"
  by (simp_all add: mix3_def)

lemma palette_channel:
  fixes ch :: "vec3 \<Rightarrow> real"
  assumes sel: "\<And>a b w. ch (mix3 a b w) = mix (ch a) (ch b) w"
  shows "chan_min ch \<le> ch (customPalette t) \<and> ch (customPalette t) \<le> chan_max ch"
proof -
  have inb: "chan_min ch \<le> ch a \<and> ch a \<le> chan_max ch" if "a \<in> set anchors" for a
    using that by (simp add: chan_min_def chan_max_def)
  have a: "chan_min ch \<le> ch c0 \<and> ch c0 \<le> chan_max ch"
          "chan_min ch \<le> ch c1 \<and> ch c1 \<le> chan_max ch"
          "chan_min ch \<le> ch c2 \<and> ch c2 \<le> chan_max ch"
          "chan_min ch \<le> ch c3 \<and> ch c3 \<le> chan_max ch"
          "chan_min ch \<le> ch c4 \<and> ch c4 \<le> chan_max ch"
          "chan_min ch \<le> ch c5 \<and> ch c5 \<le> chan_max ch"
    by (rule inb, simp add: anchors_def)+
  show ?thesis
    unfolding customPalette_def Let_def sel
    by (intro mix_between smoothstep_range a)
qed

lemma smoothstep_below: "e0 < e1 \<Longrightarrow> v \<le> e0 \<Longrightarrow> smoothstep e0 e1 v = 0"
  by (simp add: smoothstep_def clamp_def Let_def max_def min_def divide_nonpos_pos)

lemma smoothstep_above:
  assumes "e0 < e1" and "e1 \<le> v"
  shows "smoothstep e0 e1 v = 1"
proof -
  have "1 \<le> (v - e0) / (e1 - e0)" using assms by (simp add: le_divide_eq)
  then have "clamp ((v - e0) / (e1 - e0)) 0 1 = 1" by (simp add: clamp_def)
  then show ?thesis by (simp add: smoothstep_def)
qed

lemma mix3_0: "mix3 a b 0 = a"
  by (simp add: mix3_def mix_def)

lemma mix3_1: "mix3 a b 1 = b"
  by (simp add: mix3_def mix_def)

text \<open>
  The five bands: inside a band the earlier weights are 1 and the later ones 0, so the
  colour is the blend of the band's two anchors.
\<close>

lemma customPalette_bands:
  "0 \<le> t \<and> t \<le> 0.2 \<longrightarrow> customPalette t = mix3 c0 c1 (smoothstep 0.0 0.2 t)"
  "0.2 \<le> t \<and> t \<le> 0.4 \<longrightarrow> customPalette t = mix3 c1 c2 (smoothstep 0.2 0.4 t)"
  "0.4 \<le> t \<and> t \<le> 0.6 \<longrightarrow> customPalette t = mix3 c2 c3 (smoothstep 0.4 0.6 t)"
  "0.6 \<le> t \<and> t \<le> 0.8 \<longrightarrow> customPalette t = mix3 c3 c4 (smoothstep 0.6 0.8 t)"
  "0.8 \<le> t \<and> t \<le> 1 \<longrightarrow> customPalette t = mix3 c4 c5 (smoothstep 0.8 1.0 t)"
  by (simp_all add: customPalette_def Let_def smoothstep_below smoothstep_above mix3_0 mix3_1)

lemma customPalette_half: "customPalette (1 / 2) = Vec3 0.8 0.15 0.15"
  by (simp add: customPalette_def smoothstep_def clamp_def mix3_def mix_def Let_def
      c0_def c1_def c2_def c3_def c4_def c5_def)

text \<open>
  The channel bounds of the anchors, computed: red in \<open>[0.35, 1]\<close>, green in
  \<open>[0, 0.6]\<close>, blue in \<open>[0, 0.2]\<close>.
\<close>

lemma anchor_bounds:
  "chan_min vx = 0.35" "chan_max vx = 1"
  "chan_min vy = 0" "chan_max vy = 0.6"
  "chan_min vz = 0" "chan_max vz = 0.2"
  by (simp_all add: chan_min_def chan_max_def anchors_def c0_def c1_def c2_def c3_def c4_def c5_def)

text \<open>
  C1: for every phase \<open>t\<close> in \<open>[0,1)\<close> each of the red, green and blue channels of
  \<open>customPalette t\<close> lies between the minimum and the maximum of that channel over the
  anchor colours of the palette.
\<close>

theorem customPalette_within_anchor_bounds:
  assumes "0 \<le> t" and "t < 1"
  shows "chan_min vx \<le> vx (customPalette t) \<and> vx (customPalette t) \<le> chan_max vx
       \<and> chan_min vy \<le> vy (customPalette t) \<and> vy (customPalette t) \<le> chan_max vy
       \<and> chan_min vz \<le> vz (customPalette t) \<and> vz (customPalette t) \<le> chan_max vz"
  using palette_channel [of vx t] palette_channel [of vy t] palette_channel [of vz t]
  by simp

theorem customPalette_within_anchor_bounds_witness:
  "(0::real) \<le> 1 / 2 \<and> (1 / 2 :: real) < 1
   \<and> customPalette (1 / 2) = Vec3 0.8 0.15 0.15
   \<and> chan_min vx \<le> 0.8 \<and> 0.8 \<le> chan_max vx
   \<and> chan_min vy \<le> 0.15 \<and> 0.15 \<le> chan_max vy
   \<and> chan_min vz \<le> 0.15 \<and> 0.15 \<le> chan_max vz"
  using customPalette_within_anchor_bounds [of "1 / 2"] by (simp add: customPalette_half)

section \<open>Properties of hover handling\<close>

lemma dispatch_over:
  "is_over ev \<Longrightarrow> dispatch st ev = st\<lparr>hovered := True, cursor := ''pointer''\<rparr>"
  by (cases ev) (simp_all add: handlePointerOver_def)

lemma deliver_overs:
  "evs \<noteq> [] \<Longrightarrow> list_all is_over evs \<Longrightarrow>
     deliver evs st = st\<lparr>hovered := True, cursor := ''pointer''\<rparr>"
proof (induction evs arbitrary: st)
  case Nil
  then show ?case by simp
next
  case (Cons ev evs)
  from Cons.prems have ev: "dispatch st ev = st\<lparr>hovered := True, cursor := ''pointer''\<rparr>"
    by (simp add: dispatch_over)
  show ?case
  proof (cases "evs = []")
    case True
    with ev show ?thesis by (simp add: deliver_def)
  next
    case False
    with Cons.prems Cons.IH [of "dispatch st ev"] ev show ?thesis
      by (simp add: deliver_def)
  qed
qed

lemma deliver_snoc: "deliver (evs @ [ev]) st = dispatch (deliver evs st) ev"
  by (simp add: deliver_def)

text \<open>
  C7: after any run of one or more pointer-enter events with no exit between them the
  Cube is hovered and the cursor is \<open>pointer\<close>, the state being the one a single enter
  gives; one pointer-exit then clears the flag and sets the cursor to \<open>auto\<close>, the
  default.
\<close>

theorem hover_set_clear:
  assumes "evs \<noteq> []" and "list_all is_over evs"
  shows "hovered (deliver evs st) \<and> cursor (deliver evs st) = ''pointer''
       \<and> deliver evs st = deliver [hd evs] st
       \<and> \<not> hovered (deliver (evs @ [PointerOut]) st)
       \<and> cursor (deliver (evs @ [PointerOut]) st) = ''auto''"
proof -
  have one: "[hd evs] \<noteq> []" "list_all is_over [hd evs]"
    using assms by (cases evs; simp)+
  show ?thesis
    by (simp add: deliver_snoc deliver_overs [OF assms] deliver_overs [OF one]
        handlePointerOut_def)
qed

theorem hover_set_clear_witness:
  "[PointerOver \<lparr>propagationStopped = False\<rparr>, PointerOver \<lparr>propagationStopped = False\<rparr>,
    PointerOver \<lparr>propagationStopped = False\<rparr>] \<noteq> []
   \<and> list_all is_over [PointerOver \<lparr>propagationStopped = False\<rparr>,
        PointerOver \<lparr>propagationStopped = False\<rparr>, PointerOver \<lparr>propagationStopped = False\<rparr>]
   \<and> deliver [PointerOver \<lparr>propagationStopped = False\<rparr>, PointerOver \<lparr>propagationStopped = False\<rparr>,
        PointerOver \<lparr>propagationStopped = False\<rparr>] \<lparr>hovered = False, cursor = ''auto''\<rparr>
       = \<lparr>hovered = True, cursor = ''pointer''\<rparr>
   \<and> deliver [PointerOver \<lparr>propagationStopped = False\<rparr>, PointerOver \<lparr>propagationStopped = False\<rparr>,
        PointerOver \<lparr>propagationStopped = False\<rparr>, PointerOut] \<lparr>hovered = False, cursor = ''auto''\<rparr>
       = \<lparr>hovered = False, cursor = ''auto''\<rparr>"
  using hover_set_clear [of "[PointerOver \<lparr>propagationStopped = False\<rparr>,
      PointerOver \<lparr>propagationStopped = False\<rparr>, PointerOver \<lparr>propagationStopped = False\<rparr>]"
      "\<lparr>hovered = False, cursor = ''auto''\<rparr>"]
  by (simp add: deliver_def handlePointerOver_def handlePointerOut_def)

section \<open>Properties of the Tower's frame update\<close>

lemma easeOutQuart_mono:
  fixes p q :: real
  assumes "p \<le> q" and "q \<le> 1"
  shows "1 - (1 - p) ^ 4 \<le> 1 - (1 - q) ^ 4"
proof -
  have "(1 - q) ^ 4 \<le> (1 - p) ^ 4"
    using assms by (intro power_mono) simp_all
  then show ?thesis by simp
qed

lemma Tower_useFrame_growing:
  assumes "delay \<le> elapsedSinceMount now st" and "elapsedSinceMount now st \<le> delay + 1.5"
  shows "Tower_useFrame now st delay True (Some g)
       = Some (g\<lparr>scale_y := 1 - (1 - clamp ((elapsedSinceMount now st - delay) / 1.5) 0 1) ^ 4\<rparr>)"
proof -
  let ?e = "elapsedSinceMount now st - delay"
  have e: "0 \<le> ?e" "?e \<le> 1.5" using assms by simp_all
  then have p: "0 \<le> ?e / 1.5" by simp
  have "clamp (?e / 1.5) 0 1 = min (?e / 1.5) 1"
    using p by (simp add: clamp_def max_def)
  moreover have "Tower_useFrame now st delay True (Some g)
       = Some (g\<lparr>scale_y := 1 - (1 - min (?e / 1.5) 1) ^ 4\<rparr>)"
    using e by (simp add: Tower_useFrame_def elapsedSinceMount_def Let_def not_less)
  ultimately show ?thesis by simp
qed

lemma Tower_useFrame_Some:
  "Tower_useFrame now st delay visible (Some g) =
     (if elapsedSinceMount now st - delay < 0 \<or> \<not> visible then Some (g\<lparr>scale_y := 0\<rparr>)
      else if elapsedSinceMount now st - delay > 1.5 then Some (g\<lparr>scale_y := 1\<rparr>)
      else Some (g\<lparr>scale_y := 1 - (1 - min ((elapsedSinceMount now st - delay) / 1.5) 1) ^ 4\<rparr>))"
  unfolding Tower_useFrame_def elapsedSinceMount_def Let_def by simp

lemma Tower_useFrame_grown:
  assumes "delay + 1.5 \<le> elapsedSinceMount now st"
  shows "Tower_useFrame now st delay True (Some g) = Some (g\<lparr>scale_y := 1\<rparr>)"
proof -
  define e where "e = elapsedSinceMount now st - delay"
  have e: "1.5 \<le> e" using assms by (simp add: e_def)
  have "Tower_useFrame now st delay True (Some g) =
     (if e < 0 then Some (g\<lparr>scale_y := 0\<rparr>)
      else if e > 1.5 then Some (g\<lparr>scale_y := 1\<rparr>)
      else Some (g\<lparr>scale_y := 1 - (1 - min (e / 1.5) 1) ^ 4\<rparr>))"
    unfolding Tower_useFrame_Some e_def by simp
  also have "\<dots> = Some (g\<lparr>scale_y := 1\<rparr>)"
  proof (cases "e > 1.5")
    case True
    then show ?thesis by simp
  next
    case False
    with e have "e = 1.5" by simp
    then show ?thesis by simp
  qed
  finally show ?thesis .
qed

lemma Tower_useFrame_bounded:
  "\<exists>s. Tower_useFrame now st delay visible (Some g) = Some (g\<lparr>scale_y := s\<rparr>) \<and> 0 \<le> s \<and> s \<le> 1"
proof -
  define e where "e = elapsedSinceMount now st - delay"
  have eq: "Tower_useFrame now st delay visible (Some g) =
     (if e < 0 \<or> \<not> visible then Some (g\<lparr>scale_y := 0\<rparr>)
      else if e > 1.5 then Some (g\<lparr>scale_y := 1\<rparr>)
      else Some (g\<lparr>scale_y := 1 - (1 - min (e / 1.5) 1) ^ 4\<rparr>))"
    unfolding Tower_useFrame_Some e_def by simp
  show ?thesis
  proof (cases "e < 0 \<or> \<not> visible")
    case True
    with eq show ?thesis by auto
  next
    case False
    note nf = this
    show ?thesis
    proof (cases "e > 1.5")
      case True
      with eq nf show ?thesis by auto
    next
      case False
      define p where "p = min (e / 1.5) 1"
      have p: "0 \<le> p" "p \<le> 1" using nf by (simp_all add: p_def)
      then have "0 \<le> 1 - p" "1 - p \<le> 1" by simp_all
      then have "0 \<le> (1 - p) ^ 4" "(1 - p) ^ 4 \<le> 1"
        by (simp_all add: power_le_one)
      then have "0 \<le> 1 - (1 - p) ^ 4 \<and> 1 - (1 - p) ^ 4 \<le> 1" by simp
      moreover have "Tower_useFrame now st delay visible (Some g) = Some (g\<lparr>scale_y := 1 - (1 - p) ^ 4\<rparr>)"
        using eq nf False by (simp add: p_def)
      ultimately show ?thesis by blast
    qed
  qed
qed

lemma Tower_useFrame_mono:
  assumes "delay \<le> elapsedSinceMount now st" and "now \<le> now'"
  shows "\<exists>s s'. Tower_useFrame now st delay True (Some g) = Some (g\<lparr>scale_y := s\<rparr>)
             \<and> Tower_useFrame now' st delay True (Some g') = Some (g'\<lparr>scale_y := s'\<rparr>)
             \<and> s \<le> s'"
proof -
  have le: "elapsedSinceMount now st \<le> elapsedSinceMount now' st"
    using assms(2) by (simp add: elapsedSinceMount_def divide_right_mono)
  show ?thesis
  proof (cases "delay + 1.5 \<le> elapsedSinceMount now' st")
    case True
    obtain s where s: "Tower_useFrame now st delay True (Some g) = Some (g\<lparr>scale_y := s\<rparr>)" "s \<le> 1"
      using Tower_useFrame_bounded [of now st delay True g] by blast
    with Tower_useFrame_grown [OF True, of g'] show ?thesis by blast
  next
    case False
    then have up': "elapsedSinceMount now' st \<le> delay + 1.5" by simp
    with le have up: "elapsedSinceMount now st \<le> delay + 1.5" by simp
    have lo': "delay \<le> elapsedSinceMount now' st" using assms(1) le by simp
    let ?p = "clamp ((elapsedSinceMount now st - delay) / 1.5) 0 1"
    let ?q = "clamp ((elapsedSinceMount now' st - delay) / 1.5) 0 1"
    have "?p \<le> ?q" using le by (simp add: clamp_def divide_right_mono min_def max_def)
    moreover have "?q \<le> 1" by (simp add: clamp_def)
    ultimately have "1 - (1 - ?p) ^ 4 \<le> 1 - (1 - ?q) ^ 4" by (rule easeOutQuart_mono)
    with Tower_useFrame_growing [OF assms(1) up, of g] Tower_useFrame_growing [OF lo' up', of g']
    show ?thesis by blast
  qed
qed

text \<open>
  C2: with the Tower visible, a frame in the Growing state
  (\<open>delay \<le> elapsed < delay + 1.5\<close>) sets \<open>scale.y\<close> to \<open>1 - (1 - p)^4\<close> with
  \<open>p = clamp ((elapsed - delay) / 1.5, 0, 1)\<close>; from the start of growth on, a later frame
  never sets a smaller \<open>scale.y\<close> than an earlier one; a frame at
  \<open>elapsed = delay + 1.5\<close> sets exactly 1, and so does every later frame.
\<close>

theorem tower_growth_scale:
  shows "(delay \<le> elapsedSinceMount now st \<and> elapsedSinceMount now st < delay + 1.5 \<longrightarrow>
            Tower_useFrame now st delay True (Some g)
            = Some (g\<lparr>scale_y :=
                1 - (1 - clamp ((elapsedSinceMount now st - delay) / 1.5) 0 1) ^ 4\<rparr>))
       \<and> (delay \<le> elapsedSinceMount now st \<and> now \<le> now' \<longrightarrow>
            (\<exists>s s'. Tower_useFrame now st delay True (Some g) = Some (g\<lparr>scale_y := s\<rparr>)
                 \<and> Tower_useFrame now' st delay True (Some g') = Some (g'\<lparr>scale_y := s'\<rparr>)
                 \<and> s \<le> s'))
       \<and> (elapsedSinceMount now' st = delay + 1.5 \<longrightarrow>
            Tower_useFrame now' st delay True (Some g') = Some (g'\<lparr>scale_y := 1\<rparr>))
       \<and> (delay + 1.5 \<le> elapsedSinceMount now' st \<longrightarrow>
            Tower_useFrame now' st delay True (Some g') = Some (g'\<lparr>scale_y := 1\<rparr>))"
  using Tower_useFrame_growing [of delay now st g] Tower_useFrame_mono [of delay now st now' g g']
    Tower_useFrame_grown [of delay now' st g']
  by simp

theorem tower_growth_scale_witness:
  "(8 / 100 \<le> elapsedSinceMount 830 0 \<and> elapsedSinceMount 830 0 < 8 / 100 + 1.5)
   \<and> (830::int) \<le> 1580
   \<and> elapsedSinceMount 1580 0 = 8 / 100 + 1.5
   \<and> Tower_useFrame 830 0 (8 / 100) True (Some \<lparr>scale_y = 0\<rparr>) = Some \<lparr>scale_y = 15 / 16\<rparr>
   \<and> Tower_useFrame 1580 0 (8 / 100) True (Some \<lparr>scale_y = 15 / 16\<rparr>) = Some \<lparr>scale_y = 1\<rparr>"
  using tower_growth_scale [of "8 / 100" 830 0 "\<lparr>scale_y = 0\<rparr>" 1580 "\<lparr>scale_y = 15 / 16\<rparr>"]
  by (simp add: elapsedSinceMount_def clamp_def power4_eq_xxxx)

text \<open>
  C3: a frame of a Tower whose \<open>visible\<close> flag is false sets \<open>scale.y\<close> to 0, whatever
  the elapsed time and the delay are.
\<close>

theorem tower_hidden_scale_zero:
  "Tower_useFrame now st delay False (Some g) = Some (g\<lparr>scale_y := 0\<rparr>)"
  by (simp add: Tower_useFrame_def Let_def)

text \<open>
  C9: every frame update of a mounted Tower leaves \<open>scale.y\<close> in the closed interval
  \<open>[0, 1]\<close>.
\<close>

theorem tower_scale_in_unit_interval:
  "\<exists>s. Tower_useFrame now st delay visible (Some g) = Some (g\<lparr>scale_y := s\<rparr>)
       \<and> 0 \<le> s \<and> s \<le> 1"
  by (rule Tower_useFrame_bounded)

section \<open>Properties of the random numbers, the cubes and the grid\<close>

lemma gaussianRandom_Some:
  assumes "0 \<le> rnd k" "rnd k < 1"
  shows "gaussianRandom mean stdev rnd k
       = Some (sqrt (- 2 * ln (1 - rnd k)) * cos (2 * pi * rnd (Suc k)) * stdev + mean, k + 2)"
proof -
  have u: "0 < 1 - rnd k" "1 - rnd k \<le> 1" using assms by simp_all
  then have "ln (1 - rnd k) \<le> 0" by simp
  then have "0 \<le> - 2 * ln (1 - rnd k)" by simp
  with u show ?thesis
    by (simp add: gaussianRandom_def Math_random_def Math_log_def Math_sqrt_def Let_def)
qed


lemma gaussianRandom_uniform:
  assumes "uniform_source rnd"
  shows "gaussianRandom mean stdev rnd k
       = Some (sqrt (- 2 * ln (1 - rnd k)) * cos (2 * pi * rnd (Suc k)) * stdev + mean, k + 2)"
  using assms gaussianRandom_Some [of rnd k mean stdev] by (simp add: uniform_source_def)




lemma cube_loop_step:
  assumes "uniform_source rnd" "i < n"
  shows "cube_loop position n rnd i k acc =
     cube_loop position n rnd (i + 1) (k + 2)
       (acc @ [\<lparr>cube_key = i,
                cube_position = Vec3 (vx position) (vy position + (of_int i * 0.5)) (vz position),
                cube_color = 0x006FEE,
                cube_index = i,
                cube_randomValue =
                  sqrt (- 2 * ln (1 - rnd k)) * cos (2 * pi * rnd (Suc k)) * 0.2 + 0.5\<rparr>])"
proof -
  show ?thesis
    by (subst cube_loop.simps) (simp add: assms(2) gaussianRandom_uniform [OF assms(1)])
qed

lemma cube_loop_spec:
  assumes "uniform_source rnd"
  shows "\<exists>cs k'. cube_loop position n rnd i k acc = Some (acc @ cs, k')
           \<and> length cs = nat (n - i)
           \<and> (\<forall>j < length cs.
                 cube_position (cs ! j)
                   = Vec3 (vx position) (vy position + (of_int (i + int j) * 0.5)) (vz position)
               \<and> cube_index (cs ! j) = i + int j)"
proof (induction "nat (n - i)" arbitrary: i k acc)
  case 0
  then have "\<not> i < n" by simp
  then show ?case by (subst cube_loop.simps) simp
next
  case (Suc m)
  then have lt: "i < n" and m: "m = nat (n - (i + 1))" by simp_all
  let ?c = "\<lparr>cube_key = i,
              cube_position = Vec3 (vx position) (vy position + (of_int i * 0.5)) (vz position),
              cube_color = 0x006FEE,
              cube_index = i,
              cube_randomValue =
                sqrt (- 2 * ln (1 - rnd k)) * cos (2 * pi * rnd (Suc k)) * 0.2 + 0.5\<rparr>"
  from Suc.hyps(1) [OF m, of "k + 2" "acc @ [?c]"]
  obtain cs k' where cs: "cube_loop position n rnd (i + 1) (k + 2) (acc @ [?c]) = Some ((acc @ [?c]) @ cs, k')"
      "length cs = nat (n - (i + 1))"
      "\<forall>j < length cs. cube_position (cs ! j)
                   = Vec3 (vx position) (vy position + (of_int (i + 1 + int j) * 0.5)) (vz position)
               \<and> cube_index (cs ! j) = i + 1 + int j"
    by blast
  have run: "cube_loop position n rnd i k acc = Some (acc @ (?c # cs), k')"
    using cube_loop_step [OF assms lt, of position k acc] cs(1) by simp
  have len: "length (?c # cs) = nat (n - i)" using cs(2) lt by simp
  have nth: "cube_position ((?c # cs) ! j)
                   = Vec3 (vx position) (vy position + (of_int (i + int j) * 0.5)) (vz position)
               \<and> cube_index ((?c # cs) ! j) = i + int j" if "j < length (?c # cs)" for j
  proof (cases j)
    case 0
    then show ?thesis by simp
  next
    case (Suc j')
    with that have "j' < length cs" by simp
    with cs(3) Suc show ?thesis by (simp add: add.assoc)
  qed
  from run len nth show ?case by blast
qed

lemma Math_sqrt_nonneg: "0 \<le> a \<Longrightarrow> Math_sqrt a = Some (sqrt a)"
  by (simp add: Math_sqrt_def)

lemma Towers_z_step:
  assumes "uniform_source rnd" "z < size_grid"
  shows "\<exists>t. Towers_z rnd x z k towers = Towers_z rnd x (z + 1) (k + 4) (towers @ [t])
           \<and> 0.5 \<le> tower_height t"
proof -
  have d: "Math_sqrt ((of_int x - (of_int size_grid / 2 - 0.5)) ^ 2
                    + (of_int z - (of_int size_grid / 2 - 0.5)) ^ 2)
         = Some (sqrt ((of_int x - (of_int size_grid / 2 - 0.5)) ^ 2
                    + (of_int z - (of_int size_grid / 2 - 0.5)) ^ 2))"
    by (rule Math_sqrt_nonneg) simp
  have r: "Math_sqrt 2 = Some (sqrt 2)"
    by (rule Math_sqrt_nonneg) simp
  have k4: "k + 2 + 2 = k + 4" by simp
  show ?thesis
    apply (subst Towers_z.simps)
    apply (simp only: assms(2) if_True Let_def d r gaussianRandom_uniform [OF assms(1)]
        Option.bind.bind_lunit prod.case k4)
    apply (rule exI)
    apply (rule conjI)
     apply (rule refl)
    apply (simp only: tower.select_convs max.cobounded1)
    done
qed

lemma Towers_z_spec:
  assumes "uniform_source rnd"
  shows "\<exists>ts k'. Towers_z rnd x z k towers = Some (towers @ ts, k')
           \<and> length ts = nat (size_grid - z)
           \<and> (\<forall>t \<in> set ts. 0.5 \<le> tower_height t)"
proof (induction "nat (size_grid - z)" arbitrary: z k towers)
  case 0
  then have "\<not> z < size_grid" by simp
  then show ?case by (subst Towers_z.simps) simp
next
  case (Suc m)
  then have lt: "z < size_grid" and m: "m = nat (size_grid - (z + 1))" by simp_all
  from Towers_z_step [OF assms lt, of x k towers]
  obtain t where t: "Towers_z rnd x z k towers = Towers_z rnd x (z + 1) (k + 4) (towers @ [t])"
      "0.5 \<le> tower_height t"
    by blast
  from Suc.hyps(1) [OF m, of "k + 4" "towers @ [t]"]
  obtain ts k' where ts: "Towers_z rnd x (z + 1) (k + 4) (towers @ [t]) = Some ((towers @ [t]) @ ts, k')"
      "length ts = nat (size_grid - (z + 1))" "\<forall>t \<in> set ts. 0.5 \<le> tower_height t"
    by blast
  have "Towers_z rnd x z k towers = Some (towers @ (t # ts), k')" using t(1) ts(1) by simp
  moreover have "length (t # ts) = nat (size_grid - z)" using ts(2) lt by simp
  moreover have "\<forall>t \<in> set (t # ts). 0.5 \<le> tower_height t" using t(2) ts(3) by simp
  ultimately show ?case by blast
qed

lemma Towers_x_spec:
  assumes "uniform_source rnd"
  shows "\<exists>ts k'. Towers_x rnd x k towers = Some (towers @ ts, k')
           \<and> length ts = nat (size_grid - x) * nat size_grid
           \<and> (\<forall>t \<in> set ts. 0.5 \<le> tower_height t)"
proof (induction "nat (size_grid - x)" arbitrary: x k towers)
  case 0
  then have "\<not> x < size_grid" by simp
  then show ?case by (subst Towers_x.simps) simp
next
  case (Suc m)
  then have lt: "x < size_grid" and m: "m = nat (size_grid - (x + 1))" by simp_all
  from Towers_z_spec [OF assms, of x 0 k towers]
  obtain row k1 where row: "Towers_z rnd x 0 k towers = Some (towers @ row, k1)"
      "length row = nat size_grid" "\<forall>t \<in> set row. 0.5 \<le> tower_height t"
    by auto
  from Suc.hyps(1) [OF m, of k1 "towers @ row"]
  obtain ts k' where ts: "Towers_x rnd (x + 1) k1 (towers @ row) = Some ((towers @ row) @ ts, k')"
      "length ts = nat (size_grid - (x + 1)) * nat size_grid" "\<forall>t \<in> set ts. 0.5 \<le> tower_height t"
    by blast
  have "Towers_x rnd x k towers = Some (towers @ (row @ ts), k')"
    using row(1) ts(1) lt by (subst Towers_x.simps) simp
  moreover have "length (row @ ts) = nat (size_grid - x) * nat size_grid"
  proof -
    have "nat (size_grid - x) = Suc (nat (size_grid - (x + 1)))" using lt by simp
    then show ?thesis using row(2) ts(2) by simp
  qed
  moreover have "\<forall>t \<in> set (row @ ts). 0.5 \<le> tower_height t" using row(3) ts(3) by auto
  ultimately show ?case by blast
qed

text \<open>
  C4: whatever numbers in \<open>[0, 1)\<close> \<open>Math.random\<close> returns, the grid composer returns
  exactly \<open>size * size = 144\<close> tower descriptors, and the height of every one of them is
  at least 0.5.
\<close>

theorem Towers_count_and_height_floor:
  assumes "uniform_source rnd"
  shows "\<exists>towers k'. Towers rnd k = Some (towers, k')
           \<and> int (length towers) = size_grid * size_grid
           \<and> length towers = 144
           \<and> (\<forall>t \<in> set towers. 0.5 \<le> tower_height t)"
proof -
  from Towers_x_spec [OF assms, of 0 k "[]"]
  obtain ts k' where ts: "Towers_x rnd 0 k [] = Some ([] @ ts, k')"
      "length ts = nat (size_grid - 0) * nat size_grid"
      "\<forall>t \<in> set ts. 0.5 \<le> tower_height t"
    by blast
  have run: "Towers rnd k = Some (ts, k')" using ts(1) by (simp add: Towers_def)
  have len: "length ts = 144" unfolding ts(2) size_grid_def by simp
  have sq: "int (length ts) = size_grid * size_grid" unfolding len size_grid_def by simp
  from run sq len ts(3) show ?thesis by blast
qed

theorem Towers_count_and_height_floor_witness:
  "uniform_source (\<lambda>i. 0)
   \<and> (\<exists>towers k'. Towers (\<lambda>i. 0) 0 = Some (towers, k')
           \<and> int (length towers) = size_grid * size_grid
           \<and> length towers = 144
           \<and> (\<forall>t \<in> set towers. 0.5 \<le> tower_height t))"
proof -
  have u: "uniform_source (\<lambda>i. 0)" by (simp add: uniform_source_def)
  from u Towers_count_and_height_floor [OF u, of 0] show ?thesis by (rule conjI)
qed

text \<open>
  C5: a Tower of height at least 0 creates \<open>floor (height * 8)\<close> cubes, which is 4, 8
  and 20 for the heights 0.5, 1.0 and 2.5; the cube of index \<open>i\<close> sits \<open>i * 0.5\<close> above
  the Tower's base position, with the base's other two coordinates.
\<close>

theorem Tower_cube_count_and_offsets:
  assumes "uniform_source rnd" and "0 \<le> height"
  shows "(\<exists>cubes k'. Tower_cubes position height rnd k = Some (cubes, k')
           \<and> int (length cubes) = \<lfloor>height * 8\<rfloor>
           \<and> (\<forall>i < length cubes.
                 cube_index (cubes ! i) = int i
               \<and> cube_position (cubes ! i)
                   = Vec3 (vx position) (vy position + real i * 0.5) (vz position)))
       \<and> numCubes 0.5 = 4 \<and> numCubes 1.0 = 8 \<and> numCubes 2.5 = 20"
proof -
  have n: "0 \<le> numCubes height" using assms(2) by (simp add: numCubes_def)
  from cube_loop_spec [OF assms(1), of position "numCubes height" 0 k "[]"]
  obtain cs k' where cs: "cube_loop position (numCubes height) rnd 0 k [] = Some ([] @ cs, k')"
      "length cs = nat (numCubes height - 0)"
      "\<forall>j < length cs.
          cube_position (cs ! j)
            = Vec3 (vx position) (vy position + (of_int (0 + int j) * 0.5)) (vz position)
        \<and> cube_index (cs ! j) = 0 + int j"
    by blast
  have run: "Tower_cubes position height rnd k = Some (cs, k')"
    using cs(1) by (simp add: Tower_cubes_def)
  have len: "int (length cs) = \<lfloor>height * 8\<rfloor>"
    using cs(2) n by (simp add: numCubes_def)
  have pos: "\<forall>i < length cs.
                 cube_index (cs ! i) = int i
               \<and> cube_position (cs ! i)
                   = Vec3 (vx position) (vy position + real i * 0.5) (vz position)"
    using cs(3) by simp
  have ex: "\<exists>cubes k'. Tower_cubes position height rnd k = Some (cubes, k')
           \<and> int (length cubes) = \<lfloor>height * 8\<rfloor>
           \<and> (\<forall>i < length cubes.
                 cube_index (cubes ! i) = int i
               \<and> cube_position (cubes ! i)
                   = Vec3 (vx position) (vy position + real i * 0.5) (vz position))"
    using run len pos by blast
  have "numCubes 0.5 = 4 \<and> numCubes 1.0 = 8 \<and> numCubes 2.5 = 20"
    by (simp add: numCubes_def)
  with ex show ?thesis by (rule conjI)
qed

theorem Tower_cube_count_and_offsets_witness:
  "uniform_source (\<lambda>i. 0) \<and> (0::real) \<le> 1 / 2
   \<and> (\<exists>cubes k'. Tower_cubes (Vec3 0 (- 2) 0) (1 / 2) (\<lambda>i. 0) 0 = Some (cubes, k')
          \<and> int (length cubes) = 4
          \<and> cube_position (cubes ! 3) = Vec3 0 (- 1 / 2) 0)"
proof -
  have u: "uniform_source (\<lambda>i. 0)" by (simp add: uniform_source_def)
  have h: "(0::real) \<le> 1 / 2" by simp
  from Tower_cube_count_and_offsets [OF u h, of "Vec3 0 (- 2) 0" 0]
  obtain cubes k' where c: "Tower_cubes (Vec3 0 (- 2) 0) (1 / 2) (\<lambda>i. 0) 0 = Some (cubes, k')"
      "int (length cubes) = \<lfloor>(1 / 2 :: real) * 8\<rfloor>"
      "\<forall>i < length cubes.
                 cube_index (cubes ! i) = int i
               \<and> cube_position (cubes ! i)
                   = Vec3 (vx (Vec3 0 (- 2) 0)) (vy (Vec3 0 (- 2) 0) + real i * 0.5) (vz (Vec3 0 (- 2) 0))"
    by blast
  have len: "int (length cubes) = 4" using c(2) by simp
  then have "3 < length cubes" by simp
  with c(3) have "cube_position (cubes ! 3) = Vec3 0 (- 1 / 2) 0" by simp
  with u h c(1) len show ?thesis by blast
qed

text \<open>
  C10: for two samples of \<open>Math.random\<close> in \<open>[0, 1)\<close>, \<open>u = 1 - Math.random()\<close> lies in
  \<open>(0, 1]\<close>, \<open>Math.log u\<close> is a finite number and not positive, the argument
  \<open>-2 * log u\<close> of the square root is not negative, and \<open>gaussianRandom\<close> returns a
  finite number.
\<close>

theorem gaussianRandom_finite:
  assumes "0 \<le> rnd k \<and> rnd k < 1" and "0 \<le> rnd (Suc k) \<and> rnd (Suc k) < 1"
  shows "0 < 1 - rnd k \<and> 1 - rnd k \<le> 1
       \<and> (\<exists>l. Math_log (1 - rnd k) = Some l \<and> l \<le> 0 \<and> 0 \<le> - 2 * l
             \<and> (\<exists>q. Math_sqrt (- 2 * l) = Some q))
       \<and> (\<exists>g. gaussianRandom mean stdev rnd k = Some (g, k + 2))"
proof -
  have u: "0 < 1 - rnd k" "1 - rnd k \<le> 1" using assms(1) by simp_all
  then have l: "ln (1 - rnd k) \<le> 0" by simp
  then have a: "0 \<le> - 2 * ln (1 - rnd k)" by simp
  have "\<exists>g. gaussianRandom mean stdev rnd k = Some (g, k + 2)"
    using gaussianRandom_Some [of rnd k mean stdev] assms(1) by simp
  with u l a show ?thesis by (simp add: Math_log_def Math_sqrt_def)
qed

theorem gaussianRandom_finite_witness:
  "((0::real) \<le> (\<lambda>i. if i = 0 then 0 else 1 / 2) 0 \<and> (\<lambda>i. if i = 0 then 0 else 1 / 2 :: real) 0 < 1)
   \<and> ((0::real) \<le> (\<lambda>i. if i = 0 then 0 else 1 / 2) (Suc 0)
        \<and> (\<lambda>i. if i = 0 then 0 else 1 / 2 :: real) (Suc 0) < 1)
   \<and> gaussianRandom 0 1 (\<lambda>i. if i = 0 then 0 else 1 / 2) 0 = Some (0, 2)"
  using gaussianRandom_finite [of "\<lambda>i. if i = 0 then 0 else 1 / 2" 0 0 1]
  by (simp add: gaussianRandom_def Math_random_def Math_log_def Math_sqrt_def)

section \<open>Properties of the fragment shader\<close>

text \<open>
  C6: the fragment computation is deterministic, a function of its inputs with no hidden
  state. Two evaluations with the same time, the same phase \<open>randomValue\<close>, the same
  index, the same view and normal vectors and the same hover strength write the same
  colour; for a hovered cube (hover strength above 0) the fog reads one more input, the
  distance of the fragment from the centre of the cube, which has to agree as well.
  Nothing else the shader can see changes the colour.
\<close>

theorem fragment_main_deterministic:
  assumes "time a = time b" and "randomValue a = randomValue b" and "index a = index b"
    and "view_vector a = view_vector b" and "vNormal a = vNormal b"
    and "isHovered a = isHovered b"
    and "0 < isHovered a \<longrightarrow> length3 (vPosition a) = length3 (vPosition b)"
  shows "fragment_main a = fragment_main b"
proof -
  have v: "normalize3 (vsub (cameraPosition a) (vWorldPosition a))
         = normalize3 (vsub (cameraPosition b) (vWorldPosition b))"
    using assms(4) by (simp add: view_vector_def)
  show ?thesis
  proof (cases "0 < isHovered a")
    case True
    with assms(7) have p: "length3 (vPosition a) = length3 (vPosition b)" by simp
    show ?thesis
      unfolding fragment_main_def v assms(1,2,3,5,6) p ..
  next
    case False
    then have na: "\<not> 0.0 < isHovered a" by simp
    then have nb: "\<not> 0.0 < isHovered b" using assms(6) by simp
    show ?thesis
      unfolding fragment_main_def v assms(1,2,3,5) Let_def if_not_P [OF na] if_not_P [OF nb] ..
  qed
qed

theorem fragment_main_deterministic_witness:
  "time fragment_sample = time fragment_other_uv
   \<and> randomValue fragment_sample = randomValue fragment_other_uv
   \<and> index fragment_sample = index fragment_other_uv
   \<and> view_vector fragment_sample = view_vector fragment_other_uv
   \<and> vNormal fragment_sample = vNormal fragment_other_uv
   \<and> isHovered fragment_sample = isHovered fragment_other_uv
   \<and> 0 < isHovered fragment_sample
   \<and> length3 (vPosition fragment_sample) = length3 (vPosition fragment_other_uv)
   \<and> vUv fragment_sample \<noteq> vUv fragment_other_uv
   \<and> fragment_main fragment_sample = fragment_main fragment_other_uv"
  using fragment_main_deterministic [of fragment_sample fragment_other_uv]
  by (simp add: fragment_other_uv_def fragment_sample_def view_vector_def)

section \<open>Properties of the fullscreen control\<close>

text \<open>
  C8, as the code has it: when the browser grants the call, a press of \<open>f\<close> or \<open>F\<close>
  outside fullscreen enters fullscreen, a press in fullscreen leaves it, and after the
  press \<open>isFullscreen\<close> equals the platform's fullscreen state.
\<close>

theorem fullscreen_toggle_granted:
  assumes "key = ''f'' \<or> key = ''F''"
  shows "(\<not> in_fullscreen st \<longrightarrow> in_fullscreen (handleKeyPress key True st))
       \<and> (in_fullscreen st \<longrightarrow> \<not> in_fullscreen (handleKeyPress key True st))
       \<and> isFullscreen (handleKeyPress key True st) = in_fullscreen (handleKeyPress key True st)"
  using assms
  by (auto simp add: handleKeyPress_def toggleFullscreen_def requestFullscreen_def
      exitFullscreen_def in_fullscreen_def)

theorem fullscreen_toggle_granted_witness:
  "(''f'' = ''f'' \<or> ''f'' = ''F'')
   \<and> \<not> in_fullscreen \<lparr>fullscreenElement = None, isFullscreen = False\<rparr>
   \<and> handleKeyPress ''f'' True \<lparr>fullscreenElement = None, isFullscreen = False\<rparr>
       = \<lparr>fullscreenElement = Some ''documentElement'', isFullscreen = True\<rparr>
   \<and> in_fullscreen \<lparr>fullscreenElement = Some ''documentElement'', isFullscreen = True\<rparr>
   \<and> handleKeyPress ''f'' True \<lparr>fullscreenElement = Some ''documentElement'', isFullscreen = True\<rparr>
       = \<lparr>fullscreenElement = None, isFullscreen = False\<rparr>"
  using fullscreen_toggle_granted [of "''f''" "\<lparr>fullscreenElement = None, isFullscreen = False\<rparr>"]
    fullscreen_toggle_granted [of "''f''"
      "\<lparr>fullscreenElement = Some ''documentElement'', isFullscreen = True\<rparr>"]
  by (simp add: handleKeyPress_def toggleFullscreen_def requestFullscreen_def
      exitFullscreen_def in_fullscreen_def)

text \<open>
  The claim C8 as it is stated fails: when the browser refuses the request, a press of
  \<open>f\<close> outside fullscreen leaves the page outside fullscreen and sets \<open>isFullscreen\<close>.
\<close>

theorem fullscreen_toggle_refused:
  "\<not> in_fullscreen \<lparr>fullscreenElement = None, isFullscreen = False\<rparr>
   \<and> \<not> in_fullscreen (handleKeyPress ''f'' False \<lparr>fullscreenElement = None, isFullscreen = False\<rparr>)
   \<and> isFullscreen (handleKeyPress ''f'' False \<lparr>fullscreenElement = None, isFullscreen = False\<rparr>)
   \<and> isFullscreen (handleKeyPress ''f'' False \<lparr>fullscreenElement = None, isFullscreen = False\<rparr>)
       \<noteq> in_fullscreen (handleKeyPress ''f'' False \<lparr>fullscreenElement = None, isFullscreen = False\<rparr>)"
  by (simp add: handleKeyPress_def toggleFullscreen_def requestFullscreen_def in_fullscreen_def)

end
